theory Spec2Isabelle
  imports Complex_Main
begin

section \<open>Configuration and errors\<close>

text \<open>
  The module-level constants of \<^verbatim>\<open>playwright_web_scrapping.py\<close> that the modelled
  functions read from \<^verbatim>\<open>config.ini\<close>. \<^verbatim>\<open>AUTH_MAX_AGE\<close> is computed from the
  configured number of hours.
\<close>

record config =
  SCREENSHOT_DIR :: string
  AUTH_MAX_AGE_HOURS :: int

definition AUTH_MAX_AGE :: "config \<Rightarrow> int" where
  "AUTH_MAX_AGE cfg = AUTH_MAX_AGE_HOURS cfg * 3600"

text \<open>
  Exceptions as values. \<open>PlaywrightError\<close> stands for any exception raised by a call
  into the browser driver (a timeout, a detached element, a destroyed execution
  context); \<open>ValueError\<close> is Python's own.
\<close>

datatype error = PlaywrightError | ValueError

section \<open>Strings and numbers of the two languages\<close>

text \<open>
  Attribute and header values are taken as ASCII strings. A character is classified by
  its code.
\<close>

definition is_digit :: "char \<Rightarrow> bool" where
  "is_digit c = (48 \<le> (of_char c :: nat) \<and> (of_char c :: nat) \<le> 57)"

definition digit_val :: "char \<Rightarrow> nat" where
  "digit_val c = (of_char c :: nat) - 48"

definition py_isspace :: "char \<Rightarrow> bool" where
  "py_isspace c = ((of_char c :: nat) \<in> set [9, 10, 11, 12, 13, 32])"

definition decimal_value :: "string \<Rightarrow> int" where
  "decimal_value ds = foldl (\<lambda>a c. 10 * a + int (digit_val c)) 0 ds"

text \<open>
  Python's truth test on the result of \<^verbatim>\<open>get_attribute\<close>: \<^verbatim>\<open>None\<close> and the empty
  string are false, every other string is true.
\<close>

definition truthy :: "string option \<Rightarrow> bool" where
  "truthy v = (case v of None \<Rightarrow> False | Some s \<Rightarrow> s \<noteq> [])"

text \<open>
  \<^verbatim>\<open>int(s)\<close> on a string: surrounding whitespace (tab to carriage return, and the
  space) is stripped, one sign is allowed, and
  the rest is decimal digits in which single underscores may stand between two digits.
  \<open>None\<close> is the \<^verbatim>\<open>ValueError\<close>, which CPython 3.11 and later also raise
  for more than 4300 digits.
\<close>

fun digit_groups :: "string \<Rightarrow> bool" where
  "digit_groups [] = False"
| "digit_groups [c] = is_digit c"
| "digit_groups (c # d # cs) =
     (if is_digit c
      then (if d = CHR ''_'' then digit_groups cs else digit_groups (d # cs))
      else False)"

definition py_strip :: "string \<Rightarrow> string" where
  "py_strip s = rev (dropWhile py_isspace (rev (dropWhile py_isspace s)))"

definition py_int :: "string \<Rightarrow> int option" where
  "py_int s =
     (let t = py_strip s;
          neg = (take 1 t = ''-'');
          body = (if take 1 t = ''-'' \<or> take 1 t = ''+'' then drop 1 t else t)
      in if digit_groups body \<and> length (filter is_digit body) \<le> 4300
         then Some ((if neg then - 1 else 1) * decimal_value (filter is_digit body))
         else None)"

text \<open>\<^verbatim>\<open>s.isdigit()\<close>: the string is not empty and every character is a digit.\<close>

definition isdigit :: "string \<Rightarrow> bool" where
  "isdigit s = (s \<noteq> [] \<and> list_all is_digit s)"

text \<open>
  A JavaScript number as it reaches Python through \<^verbatim>\<open>page.evaluate\<close>: an integer or
  \<^verbatim>\<open>NaN\<close>. (The browser holds numbers as doubles, in which integers of magnitude up
  to \<open>2 ^ 53\<close> are exact; the model keeps the exact integer.)
\<close>

datatype js_number = JSNum int | JSNaN

text \<open>
  \<^verbatim>\<open>parseInt(s)\<close> with no radix: leading whitespace is skipped, one sign is allowed, a
  \<^verbatim>\<open>0x\<close> prefix selects radix 16, and the longest prefix of digits is read; with no
  digit the result is \<^verbatim>\<open>NaN\<close>.
\<close>

definition js_isspace :: "char \<Rightarrow> bool" where
  "js_isspace c = ((of_char c :: nat) \<in> set [9, 10, 11, 12, 13, 32])"

definition radix_digit_val :: "char \<Rightarrow> nat" where
  "radix_digit_val c =
     (let n = (of_char c :: nat)
      in if 48 \<le> n \<and> n \<le> 57 then n - 48
         else if 97 \<le> n \<and> n \<le> 122 then n - 87
         else if 65 \<le> n \<and> n \<le> 90 then n - 55
         else 36)"

definition parseInt :: "string \<Rightarrow> js_number" where
  "parseInt s =
     (let t = dropWhile js_isspace s;
          neg = (take 1 t = ''-'');
          u = (if take 1 t = ''-'' \<or> take 1 t = ''+'' then drop 1 t else t);
          hex = (take 2 u = ''0x'' \<or> take 2 u = ''0X'');
          radix = (if hex then 16 else 10 :: nat);
          v = (if hex then drop 2 u else u);
          z = takeWhile (\<lambda>c. radix_digit_val c < radix) v
      in if z = [] then JSNaN
         else JSNum ((if neg then - 1 else 1)
                * foldl (\<lambda>a c. int radix * a + int (radix_digit_val c)) 0 z))"

text \<open>
  Python's \<^verbatim>\<open>x > n\<close> for such a number and an integer: every comparison with
  \<^verbatim>\<open>NaN\<close> is false.
\<close>

definition js_gt :: "js_number \<Rightarrow> int \<Rightarrow> bool" where
  "js_gt x n = (case x of JSNum v \<Rightarrow> v > n | JSNaN \<Rightarrow> False)"

section \<open>The page as the driver shows it\<close>

text \<open>
  An element handle. \<open>attributes\<close> are the attributes of the element, \<open>outerHTML\<close> its
  markup and the \<open>rect_\<close> fields its \<^verbatim>\<open>getBoundingClientRect()\<close>. Every call on a
  handle can raise (the element was detached, the page navigated away); the three flags
  say which kind of call succeeds.
\<close>

record element =
  attributes :: "(string \<times> string) list"
  outerHTML :: string
  rect_top :: rat
  rect_bottom :: rat
  rect_left :: rat
  rect_width :: rat
  rect_height :: rat
  get_attribute_ok :: bool
  evaluate_ok :: bool
  screenshot_ok :: bool

text \<open>
  The outcome of the script that \<^verbatim>\<open>check_file_image_size\<close> evaluates in the page for
  one URL: the evaluation itself raises, the \<^verbatim>\<open>fetch\<close> throws inside the script, or
  a response arrives with a \<^verbatim>\<open>Content-Length\<close> header or without one.
\<close>

datatype head_probe = EvaluateRaises | FetchThrows | Responded "string option"

text \<open>
  A page: its URL after navigation, whether \<^verbatim>\<open>goto\<close> and
  \<^verbatim>\<open>wait_for_load_state\<close> return, the two heights the scripts read, the element
  lists the four selectors return, the answer to a \<^verbatim>\<open>HEAD\<close> request per URL, and
  the result of \<^verbatim>\<open>save_image_screenshot\<close> per image source and index (that function
  swallows every exception and returns a path or \<^verbatim>\<open>None\<close>).
\<close>

record page =
  url :: string
  goto_ok :: bool
  load_ok :: bool
  documentHeight :: rat
  viewportHeight :: rat
  imgs :: "element list"
  inline_svgs :: "element list"
  svg_images :: "element list"
  svg_objects :: "element list"
  head :: "string \<Rightarrow> head_probe"
  saved_screenshot :: "string \<Rightarrow> nat \<Rightarrow> string option"

definition get_attribute :: "element \<Rightarrow> string \<Rightarrow> error + string option" where
  "get_attribute e name =
     (if get_attribute_ok e then Inr (map_of (attributes e) name) else Inl PlaywrightError)"

section \<open>The records\<close>

text \<open>
  \<^verbatim>\<open>ScrapedImage\<close>. The dataclass declares \<^verbatim>\<open>is_header\<close>, \<^verbatim>\<open>is_footer\<close> as
  \<^verbatim>\<open>bool\<close> and \<^verbatim>\<open>file_size\<close> as \<^verbatim>\<open>int\<close>, but Python does not enforce the
  annotations and the probers can hand back \<^verbatim>\<open>None\<close>, so these fields are options
  here.
\<close>

record scraped_image =
  src :: string
  image_url :: string
  alt :: "string option"
  is_header :: "bool option"
  is_footer :: "bool option"
  is_logo :: bool
  file_size :: "js_number option"
  is_large_file :: bool
  width :: "int option"
  height :: "int option"
  has_image_shape :: bool
  is_meaningful :: bool
  screenshot_path :: "string option"

definition ScrapedImage :: "string \<Rightarrow> string \<Rightarrow> string option \<Rightarrow> scraped_image" where
  "ScrapedImage s u a =
     \<lparr>src = s, image_url = u, alt = a,
      is_header = Some False, is_footer = Some False, is_logo = False,
      file_size = Some (JSNum 0), is_large_file = False,
      width = None, height = None, has_image_shape = False,
      is_meaningful = False, screenshot_path = None\<rparr>"

text \<open>\<^verbatim>\<open>ScrapedSVG\<close>.\<close>

record scraped_svg =
  svg_url :: string
  is_inline :: bool
  content :: "string option"
  svg_src :: "string option"
  svg_width :: "int option"
  svg_height :: "int option"
  svg_is_header :: "bool option"
  svg_is_footer :: "bool option"
  svg_is_logo :: bool
  svg_screenshot_path :: "string option"

section \<open>The probers\<close>

text \<open>
  The script of \<^verbatim>\<open>is_header_footer_logo\<close>: top 10 percent of the viewport, bottom 10
  percent of the document. (The browser computes in doubles, the model in rationals.)
\<close>

definition position_check :: "page \<Rightarrow> element \<Rightarrow> bool \<times> bool" where
  "position_check pg img =
     (let isTopSection = (rect_top img < viewportHeight pg * 0.1);
          isBottomSection = (rect_bottom img > documentHeight pg - viewportHeight pg * 0.1)
      in (isTopSection, isBottomSection))"

definition is_header_footer_logo :: "page \<Rightarrow> element \<Rightarrow> bool option \<times> bool option \<times> bool" where
  "is_header_footer_logo pg img =
     (if evaluate_ok img
      then (let (isTop, isBottom) = position_check pg img
            in if isTop \<or> isBottom
               then (Some isTop, Some isBottom, True)
               else (Some isTop, Some isBottom, False))
      else (None, None, False))"

text \<open>
  The script of \<^verbatim>\<open>check_file_image_size\<close>:
  \<^verbatim>\<open>parseInt(response.headers.get('Content-Length') || '0')\<close>, and \<open>0\<close> when the
  \<^verbatim>\<open>fetch\<close> throws. \<open>Inl\<close> is the evaluation raising in Python.
\<close>

definition fetch_content_length :: "head_probe \<Rightarrow> error + js_number" where
  "fetch_content_length pr =
     (case pr of
        EvaluateRaises \<Rightarrow> Inl PlaywrightError
      | FetchThrows \<Rightarrow> Inr (JSNum 0)
      | Responded h \<Rightarrow> Inr (parseInt (if truthy h then the h else ''0'')))"

definition check_file_image_size :: "page \<Rightarrow> string \<Rightarrow> js_number option \<times> bool" where
  "check_file_image_size pg s =
     (case fetch_content_length (head pg s) of
        Inr response_size \<Rightarrow> (Some response_size, js_gt response_size 10240)
      | Inl e \<Rightarrow> (None, False))"

definition check_image_size :: "element \<Rightarrow> error + (int option \<times> int option \<times> bool)" where
  "check_image_size img =
     (case get_attribute img ''width'' of
        Inl e \<Rightarrow> Inl e
      | Inr w \<Rightarrow>
         (case get_attribute img ''height'' of
            Inl e \<Rightarrow> Inl e
          | Inr h \<Rightarrow>
             if \<not> truthy w \<or> \<not> truthy h then Inr (None, None, False)
             else (case py_int (the w) of
                     None \<Rightarrow> Inr (None, None, False)
                   | Some wi \<Rightarrow>
                      (case py_int (the h) of
                         None \<Rightarrow> Inr (None, None, False)
                       | Some hi \<Rightarrow>
                          if wi > 100 \<and> hi > 100 then Inr (Some wi, Some hi, True)
                          else Inr (None, None, False)))))"

section \<open>The classifier of raster images\<close>

definition is_meaningful_image :: "element \<Rightarrow> page \<Rightarrow> error + scraped_image option" where
  "is_meaningful_image img pg =
     (case get_attribute img ''src'' of
        Inl e \<Rightarrow> Inl e
      | Inr s \<Rightarrow>
         if \<not> truthy s then Inr None
         else (case get_attribute img ''alt'' of
                 Inl e \<Rightarrow> Inl e
               | Inr a \<Rightarrow>
                  (let scraped_image = ScrapedImage (the s) (url pg) a;
                       (hd_flag, ft_flag, logo) = is_header_footer_logo pg img;
                       scraped_image = scraped_image\<lparr>is_header := hd_flag\<rparr>;
                       scraped_image = scraped_image\<lparr>is_footer := ft_flag\<rparr>;
                       scraped_image = scraped_image\<lparr>is_logo := logo\<rparr>;
                       (fsize, large) = check_file_image_size pg (the s);
                       scraped_image = scraped_image\<lparr>file_size := fsize\<rparr>;
                       scraped_image = scraped_image\<lparr>is_large_file := large\<rparr>
                   in case check_image_size img of
                        Inl e \<Rightarrow> Inl e
                      | Inr (w, h, shape) \<Rightarrow>
                         (let scraped_image = scraped_image\<lparr>width := w\<rparr>;
                              scraped_image = scraped_image\<lparr>height := h\<rparr>;
                              scraped_image = scraped_image\<lparr>has_image_shape := shape\<rparr>;
                              scraped_image = scraped_image
                                \<lparr>is_meaningful := \<not> logo \<and> large \<and> shape\<rparr>
                          in Inr (Some scraped_image)))))"

section \<open>The extractor of vector graphics\<close>

text \<open>\<^verbatim>\<open>str(i)\<close> of a loop index and \<^verbatim>\<open>os.path.join\<close> of two POSIX path parts.\<close>

function str :: "nat \<Rightarrow> string" where
  "str n =
     (if n < 10 then [''0123456789'' ! n] else str (n div 10) @ [''0123456789'' ! (n mod 10)])"
  by pat_completeness auto
termination
  by (relation "measure (\<lambda>n. n)") auto

declare str.simps [simp del]

definition path_join :: "string \<Rightarrow> string \<Rightarrow> string" where
  "path_join a b =
     (if take 1 b = ''/'' then b
      else if a = [] \<or> take 1 (rev a) = ''/'' then a @ b
      else a @ ''/'' @ b)"

text \<open>
  \<^verbatim>\<open>int(v) if v and v.isdigit() else None\<close>; \<open>Inl\<close> when \<^verbatim>\<open>int\<close> raises.
\<close>

definition svg_dimension :: "string option \<Rightarrow> error + int option" where
  "svg_dimension v =
     (if truthy v \<and> isdigit (the v)
      then (case py_int (the v) of None \<Rightarrow> Inl ValueError | Some n \<Rightarrow> Inr (Some n))
      else Inr None)"

text \<open>The position script that \<^verbatim>\<open>extract_svgs\<close> evaluates on an inline element.\<close>

definition position_data :: "page \<Rightarrow> element \<Rightarrow> bool \<times> bool \<times> bool" where
  "position_data pg svg =
     (let isHeader = (rect_top svg < viewportHeight pg * 0.1);
          isFooter = (rect_bottom svg > documentHeight pg - viewportHeight pg * 0.1);
          isLogo = (rect_width svg < 200 \<and> rect_height svg < 100 \<and>
                    (rect_top svg < viewportHeight pg * 0.2 \<or>
                     rect_left svg < viewportHeight pg * 0.2))
      in (isHeader, isFooter, isLogo))"

text \<open>
  The screenshot step shared by the first two loops: the path is stored when the
  screenshot is taken, and the exception is swallowed otherwise.
\<close>

definition take_screenshot :: "config \<Rightarrow> element \<Rightarrow> string \<Rightarrow> scraped_svg \<Rightarrow> scraped_svg" where
  "take_screenshot cfg e filename svg_obj =
     (let filepath = path_join (SCREENSHOT_DIR cfg) filename
      in if screenshot_ok e then svg_obj\<lparr>svg_screenshot_path := Some filepath\<rparr> else svg_obj)"

text \<open>
  The body of the first loop for the element of index \<open>i\<close>. \<open>Inl\<close> is an exception
  that the handler of the loop body catches: the element is dropped.
\<close>

definition inline_svg :: "config \<Rightarrow> page \<Rightarrow> nat \<Rightarrow> element \<Rightarrow> error + scraped_svg" where
  "inline_svg cfg pg i svg =
     (case get_attribute svg ''width'' of
        Inl e \<Rightarrow> Inl e
      | Inr w \<Rightarrow>
     (case get_attribute svg ''height'' of
        Inl e \<Rightarrow> Inl e
      | Inr h \<Rightarrow>
     (case svg_dimension w of
        Inl e \<Rightarrow> Inl e
      | Inr wi \<Rightarrow>
     (case svg_dimension h of
        Inl e \<Rightarrow> Inl e
      | Inr hi \<Rightarrow>
         if \<not> evaluate_ok svg then Inl PlaywrightError
         else (let (isHeader, isFooter, isLogo) = position_data pg svg;
                   svg_obj = \<lparr>svg_url = url pg, is_inline = True,
                              content = Some (outerHTML svg), svg_src = None,
                              svg_width = wi, svg_height = hi,
                              svg_is_header = Some isHeader, svg_is_footer = Some isFooter,
                              svg_is_logo = isLogo, svg_screenshot_path = None\<rparr>
               in Inr (take_screenshot cfg svg (''inline_svg_'' @ str i @ ''.png'') svg_obj))))))"

text \<open>The body of the second loop; \<open>Inr None\<close> is its \<^verbatim>\<open>continue\<close>.\<close>

definition svg_image :: "config \<Rightarrow> page \<Rightarrow> nat \<Rightarrow> element \<Rightarrow> error + scraped_svg option" where
  "svg_image cfg pg i img =
     (case get_attribute img ''src'' of
        Inl e \<Rightarrow> Inl e
      | Inr s \<Rightarrow>
         if \<not> truthy s then Inr None
         else
     (case get_attribute img ''width'' of
        Inl e \<Rightarrow> Inl e
      | Inr w \<Rightarrow>
     (case get_attribute img ''height'' of
        Inl e \<Rightarrow> Inl e
      | Inr h \<Rightarrow>
     (case svg_dimension w of
        Inl e \<Rightarrow> Inl e
      | Inr wi \<Rightarrow>
     (case svg_dimension h of
        Inl e \<Rightarrow> Inl e
      | Inr hi \<Rightarrow>
         (let (hd_flag, ft_flag, logo) = is_header_footer_logo pg img;
              svg_obj = \<lparr>svg_url = url pg, is_inline = False,
                         content = None, svg_src = s,
                         svg_width = wi, svg_height = hi,
                         svg_is_header = hd_flag, svg_is_footer = ft_flag,
                         svg_is_logo = logo, svg_screenshot_path = None\<rparr>
          in Inr (Some (take_screenshot cfg img (''svg_img_'' @ str i @ ''.png'') svg_obj))))))))"

text \<open>
  The body of the third loop. \<^verbatim>\<open>a or b\<close> reads the second attribute only when the
  first is missing or empty.
\<close>

definition svg_object :: "page \<Rightarrow> element \<Rightarrow> error + scraped_svg option" where
  "svg_object pg obj =
     (case get_attribute obj ''data'' of
        Inl e \<Rightarrow> Inl e
      | Inr d \<Rightarrow>
         (case (if truthy d then Inr d else get_attribute obj ''src'') of
            Inl e \<Rightarrow> Inl e
          | Inr s \<Rightarrow>
             if \<not> truthy s then Inr None
             else Inr (Some \<lparr>svg_url = url pg, is_inline = False,
                              content = None, svg_src = s,
                              svg_width = None, svg_height = None,
                              svg_is_header = Some False, svg_is_footer = Some False,
                              svg_is_logo = False, svg_screenshot_path = None\<rparr>)))"

text \<open>The three loops, each over \<^verbatim>\<open>enumerate\<close> of a selector's result, appending to \<open>svgs\<close>.\<close>

fun inline_loop :: "config \<Rightarrow> page \<Rightarrow> nat \<Rightarrow> element list \<Rightarrow> scraped_svg list \<Rightarrow> scraped_svg list" where
  "inline_loop cfg pg i [] svgs = svgs"
| "inline_loop cfg pg i (svg # rest) svgs =
     inline_loop cfg pg (Suc i) rest
       (case inline_svg cfg pg i svg of Inr svg_obj \<Rightarrow> svgs @ [svg_obj] | Inl e \<Rightarrow> svgs)"

fun image_loop :: "config \<Rightarrow> page \<Rightarrow> nat \<Rightarrow> element list \<Rightarrow> scraped_svg list \<Rightarrow> scraped_svg list" where
  "image_loop cfg pg i [] svgs = svgs"
| "image_loop cfg pg i (img # rest) svgs =
     image_loop cfg pg (Suc i) rest
       (case svg_image cfg pg i img of Inr (Some svg_obj) \<Rightarrow> svgs @ [svg_obj] | _ \<Rightarrow> svgs)"

fun object_loop :: "page \<Rightarrow> element list \<Rightarrow> scraped_svg list \<Rightarrow> scraped_svg list" where
  "object_loop pg [] svgs = svgs"
| "object_loop pg (obj # rest) svgs =
     object_loop pg rest
       (case svg_object pg obj of Inr (Some svg_obj) \<Rightarrow> svgs @ [svg_obj] | _ \<Rightarrow> svgs)"

definition extract_svgs :: "config \<Rightarrow> page \<Rightarrow> scraped_svg list" where
  "extract_svgs cfg pg =
     (let svgs = [];
          svgs = inline_loop cfg pg 0 (inline_svgs pg) svgs;
          svgs = image_loop cfg pg 0 (svg_images pg) svgs;
          svgs = object_loop pg (svg_objects pg) svgs
      in svgs)"

section \<open>One page\<close>

text \<open>
  \<^verbatim>\<open>save_image_screenshot\<close> catches every exception and returns a path or
  \<^verbatim>\<open>None\<close>; its result is read from the page.
\<close>

definition save_image_screenshot :: "page \<Rightarrow> scraped_image \<Rightarrow> nat \<Rightarrow> string option" where
  "save_image_screenshot pg image_data index = saved_screenshot pg (src image_data) index"

text \<open>
  The loop of \<^verbatim>\<open>extract_images\<close> over the \<^verbatim>\<open>img\<close> elements. The record appended to
  \<open>all_images\<close> is the object whose \<^verbatim>\<open>screenshot_path\<close> is set afterwards, so both
  lists hold the updated record.
\<close>

fun images_loop :: "page \<Rightarrow> element list \<Rightarrow> scraped_image list \<Rightarrow> scraped_image list
    \<Rightarrow> error + (scraped_image list \<times> scraped_image list)" where
  "images_loop pg [] all_images meaningful_images = Inr (all_images, meaningful_images)"
| "images_loop pg (img # rest) all_images meaningful_images =
     (case is_meaningful_image img pg of
        Inl e \<Rightarrow> Inl e
      | Inr None \<Rightarrow> images_loop pg rest all_images meaningful_images
      | Inr (Some image_data) \<Rightarrow>
         if is_meaningful image_data
         then (let path = save_image_screenshot pg image_data (length meaningful_images);
                   image_data = (if truthy path
                                 then image_data\<lparr>screenshot_path := path\<rparr>
                                 else image_data)
               in images_loop pg rest (all_images @ [image_data])
                    (meaningful_images @ [image_data]))
         else images_loop pg rest (all_images @ [image_data]) meaningful_images)"

text \<open>
  What \<^verbatim>\<open>extract_images\<close> returns: the triple of lists, or the empty list of its
  exception handler.
\<close>

datatype extract_result =
  Triple "scraped_image list" "scraped_image list" "scraped_svg list"
| EmptyList

text \<open>\<open>context\<close> gives the page that opens for a URL.\<close>

definition extract_images :: "config \<Rightarrow> (string \<Rightarrow> page) \<Rightarrow> string \<Rightarrow> extract_result" where
  "extract_images cfg context link =
     (let pg = context link
      in if \<not> goto_ok pg then EmptyList
         else if \<not> load_ok pg then EmptyList
         else (case images_loop pg (imgs pg) [] [] of
                 Inl e \<Rightarrow> EmptyList
               | Inr (all_images, meaningful_images) \<Rightarrow>
                   Triple meaningful_images all_images (extract_svgs cfg pg)))"

section \<open>The crawl\<close>

text \<open>
  The three lists that \<^verbatim>\<open>crawl_links\<close> accumulates and writes to its three files;
  the first is also its return value.
\<close>

record aggregate =
  all_meaningful_images :: "scraped_image list"
  all_images :: "scraped_image list"
  all_svgs :: "scraped_svg list"

text \<open>
  The loop of \<^verbatim>\<open>crawl_links\<close>. Unpacking the result of \<^verbatim>\<open>extract_images\<close> into
  three names raises \<^verbatim>\<open>ValueError\<close> when the result is the empty list; nothing in
  \<^verbatim>\<open>crawl_links\<close> catches it. \<open>visited\<close> collects the links handed to
  \<^verbatim>\<open>extract_images\<close>.
\<close>

fun crawl_loop :: "config \<Rightarrow> (string \<Rightarrow> page) \<Rightarrow> nat \<Rightarrow> string list \<Rightarrow> string list
    \<Rightarrow> aggregate \<Rightarrow> string list \<times> (error + aggregate)" where
  "crawl_loop cfg context i [] visited agg = (visited, Inr agg)"
| "crawl_loop cfg context i (link # links) visited agg =
     (if i < 10
      then (case extract_images cfg context link of
              Triple meaningful_images images svgs \<Rightarrow>
                crawl_loop cfg context (Suc i) links (visited @ [link])
                  \<lparr>all_meaningful_images = all_meaningful_images agg @ meaningful_images,
                   all_images = all_images agg @ images,
                   all_svgs = all_svgs agg @ svgs\<rparr>
            | EmptyList \<Rightarrow> (visited @ [link], Inl ValueError))
      else (visited, Inr agg))"

definition crawl_links :: "config \<Rightarrow> (string \<Rightarrow> page) \<Rightarrow> string list
    \<Rightarrow> string list \<times> (error + aggregate)" where
  "crawl_links cfg context links =
     crawl_loop cfg context 0 links []
       \<lparr>all_meaningful_images = [], all_images = [], all_svgs = []\<rparr>"

section \<open>The session\<close>

text \<open>
  What \<^verbatim>\<open>authenticate\<close> meets: the modification time of the saved state (\<open>None\<close>
  when the file does not exist), the clock, and the outcome of each step in the browser.
  Times are seconds. (Python subtracts doubles; rounding is monotone, so the comparison
  with the whole number of seconds comes out as on the exact difference.)
\<close>

record auth_env =
  auth_state_mtime :: "rat option"
  now :: rat
  goto_url_ok :: bool
  is_logged_in :: bool
  goto_authentication_url_ok :: bool
  submit_ok :: bool
  storage_state_ok :: bool

datatype auth_event =
  NewContextFromState | GotoURL | EvaluateLoggedIn
| NewContextFresh | GotoAuthenticationURL | SubmitCredentials | SaveState | CloseBrowser

datatype browser_context = SeededContext | FreshContext

text \<open>
  The second half of \<^verbatim>\<open>authenticate\<close>, from \<^verbatim>\<open>browser.new_context()\<close> on: the
  login. The navigation stands before the \<^verbatim>\<open>try\<close>; a failure inside it closes the
  browser and is raised again.
\<close>

definition fresh_login :: "auth_env \<Rightarrow> auth_event list \<times> (error + browser_context)" where
  "fresh_login env =
     (if \<not> goto_authentication_url_ok env
      then ([NewContextFresh, GotoAuthenticationURL], Inl PlaywrightError)
      else if \<not> submit_ok env
      then ([NewContextFresh, GotoAuthenticationURL, SubmitCredentials, CloseBrowser],
            Inl PlaywrightError)
      else if \<not> storage_state_ok env
      then ([NewContextFresh, GotoAuthenticationURL, SubmitCredentials, SaveState,
             CloseBrowser], Inl PlaywrightError)
      else ([NewContextFresh, GotoAuthenticationURL, SubmitCredentials, SaveState],
            Inr FreshContext))"

definition auth_state_valid :: "config \<Rightarrow> auth_env \<Rightarrow> bool" where
  "auth_state_valid cfg env =
     (case auth_state_mtime env of
        None \<Rightarrow> False
      | Some mtime \<Rightarrow>
         (let file_age = now env - mtime
          in if file_age < of_int (AUTH_MAX_AGE cfg) then True else False))"

definition authenticate :: "config \<Rightarrow> auth_env \<Rightarrow> auth_event list \<times> (error + browser_context)" where
  "authenticate cfg env =
     (if auth_state_valid cfg env
      then (if \<not> goto_url_ok env
            then ([NewContextFromState, GotoURL], Inl PlaywrightError)
            else if is_logged_in env
            then ([NewContextFromState, GotoURL, EvaluateLoggedIn], Inr SeededContext)
            else (let (events, result) = fresh_login env
                  in ([NewContextFromState, GotoURL, EvaluateLoggedIn] @ events, result)))
      else fresh_login env)"

section \<open>Example inputs\<close>

text \<open>
  A configuration, some elements and pages on which the theorems below are run. The
  viewport is 1000 high and the document 3000, so the header zone ends at 100 and the
  footer zone starts at 2900.
\<close>

definition example_config :: config where
  "example_config = \<lparr>SCREENSHOT_DIR = ''screenshots'', AUTH_MAX_AGE_HOURS = 24\<rparr>"

definition example_element :: "(string \<times> string) list \<Rightarrow> rat \<Rightarrow> rat \<Rightarrow> element" where
  "example_element attrs y0 y1 =
     \<lparr>attributes = attrs, outerHTML = ''<svg></svg>'',
      rect_top = y0, rect_bottom = y1, rect_left = 0,
      rect_width = 300, rect_height = y1 - y0,
      get_attribute_ok = True, evaluate_ok = True, screenshot_ok = True\<rparr>"

definition photo :: element where
  "photo = example_element
     [(''src'', ''photo.jpg''), (''width'', ''300''), (''height'', ''300'')] 500 800"

definition edge_photo :: element where
  "edge_photo = example_element
     [(''src'', ''edge.jpg''), (''width'', ''300''), (''height'', ''100'')] 500 800"

definition banner :: element where
  "banner = example_element
     [(''src'', ''banner.jpg''), (''width'', ''900''), (''height'', ''200'')] 20 220"

definition no_src :: element where
  "no_src = example_element [(''alt'', ''spacer'')] 500 800"

definition vector_img :: element where
  "vector_img = example_element [(''src'', ''icon.svg''), (''width'', ''32'')] 500 532"

definition vector_object :: element where
  "vector_object = example_element [(''data'', ''chart.svg'')] 900 1200"

definition example_head :: "string \<Rightarrow> head_probe" where
  "example_head u =
     (if u = ''photo.jpg'' then Responded (Some ''20000'')
      else if u = ''edge.jpg'' then Responded (Some ''10240'')
      else if u = ''banner.jpg'' then Responded (Some ''50000'')
      else if u = ''broken.jpg'' then EvaluateRaises
      else Responded None)"

definition example_page :: page where
  "example_page =
     \<lparr>url = ''https://example.org/article'', goto_ok = True, load_ok = True,
      documentHeight = 3000, viewportHeight = 1000,
      imgs = [photo, no_src, banner, edge_photo],
      inline_svgs = [example_element [(''width'', ''24''), (''height'', ''24'')] 10 34],
      svg_images = [vector_img], svg_objects = [vector_object],
      head = example_head, saved_screenshot = (\<lambda>s i. None)\<rparr>"

text \<open>The records that the classifier returns for three of the images.\<close>

definition photo_record :: scraped_image where
  "photo_record =
     \<lparr>src = ''photo.jpg'', image_url = ''https://example.org/article'', alt = None,
      is_header = Some False, is_footer = Some False, is_logo = False,
      file_size = Some (JSNum 20000), is_large_file = True,
      width = Some 300, height = Some 300, has_image_shape = True,
      is_meaningful = True, screenshot_path = None\<rparr>"

definition edge_record :: scraped_image where
  "edge_record =
     \<lparr>src = ''edge.jpg'', image_url = ''https://example.org/article'', alt = None,
      is_header = Some False, is_footer = Some False, is_logo = False,
      file_size = Some (JSNum 10240), is_large_file = False,
      width = None, height = None, has_image_shape = False,
      is_meaningful = False, screenshot_path = None\<rparr>"

definition banner_record :: scraped_image where
  "banner_record =
     \<lparr>src = ''banner.jpg'', image_url = ''https://example.org/article'', alt = None,
      is_header = Some True, is_footer = Some False, is_logo = True,
      file_size = Some (JSNum 50000), is_large_file = True,
      width = Some 900, height = Some 200, has_image_shape = True,
      is_meaningful = False, screenshot_path = None\<rparr>"

text \<open>The three records that \<^verbatim>\<open>extract_svgs\<close> returns for the example page.\<close>

definition inline_record :: scraped_svg where
  "inline_record =
     \<lparr>svg_url = ''https://example.org/article'', is_inline = True,
      content = Some ''<svg></svg>'', svg_src = None,
      svg_width = Some 24, svg_height = Some 24,
      svg_is_header = Some True, svg_is_footer = Some False, svg_is_logo = False,
      svg_screenshot_path = Some ''screenshots/inline_svg_0.png''\<rparr>"

definition vector_img_record :: scraped_svg where
  "vector_img_record =
     \<lparr>svg_url = ''https://example.org/article'', is_inline = False,
      content = None, svg_src = Some ''icon.svg'',
      svg_width = Some 32, svg_height = None,
      svg_is_header = Some False, svg_is_footer = Some False, svg_is_logo = False,
      svg_screenshot_path = Some ''screenshots/svg_img_0.png''\<rparr>"

definition vector_object_record :: scraped_svg where
  "vector_object_record =
     \<lparr>svg_url = ''https://example.org/article'', is_inline = False,
      content = None, svg_src = Some ''chart.svg'',
      svg_width = None, svg_height = None,
      svg_is_header = Some False, svg_is_footer = Some False, svg_is_logo = False,
      svg_screenshot_path = None\<rparr>"

text \<open>
  An image whose size probe cannot be evaluated, a site with one page that does not
  load, twelve links of which the third is that page, and a saved session that is
  exactly 24 hours old.
\<close>

definition broken_photo :: element where
  "broken_photo = example_element
     [(''src'', ''broken.jpg''), (''width'', ''300''), (''height'', ''300'')] 500 800"

definition broken_record :: scraped_image where
  "broken_record =
     \<lparr>src = ''broken.jpg'', image_url = ''https://example.org/article'', alt = None,
      is_header = Some False, is_footer = Some False, is_logo = False,
      file_size = None, is_large_file = False,
      width = Some 300, height = Some 300, has_image_shape = True,
      is_meaningful = False, screenshot_path = None\<rparr>"

definition example_web :: "string \<Rightarrow> page" where
  "example_web u =
     (if u = ''https://example.org/down''
      then example_page\<lparr>url := u, goto_ok := False\<rparr>
      else example_page\<lparr>url := u\<rparr>)"

definition two_links :: "string list" where
  "two_links = [''https://example.org/down'', ''https://example.org/article'']"

definition twelve_links :: "string list" where
  "twelve_links =
     [''https://example.org/1'', ''https://example.org/2'', ''https://example.org/down'',
      ''https://example.org/4'', ''https://example.org/5'', ''https://example.org/6'',
      ''https://example.org/7'', ''https://example.org/8'', ''https://example.org/9'',
      ''https://example.org/10'', ''https://example.org/11'', ''https://example.org/12'']"

definition day_old_session :: auth_env where
  "day_old_session =
     \<lparr>auth_state_mtime = Some 1700000000, now = 1700086400,
      goto_url_ok = True, is_logged_in = True,
      goto_authentication_url_ok = True, submit_ok = True, storage_state_ok = True\<rparr>"

section \<open>What the classifier stores\<close>

text \<open>
  Each field of a classified record is the answer of the prober that the classifier
  asked, and the source of a record is the non-empty \<^verbatim>\<open>src\<close> attribute.
\<close>

lemma classified_fields:
  assumes "is_meaningful_image img pg = Inr (Some r)"
  shows "check_image_size img = Inr (width r, height r, has_image_shape r)"
    and "check_file_image_size pg (src r) = (file_size r, is_large_file r)"
    and "is_header_footer_logo pg img = (is_header r, is_footer r, is_logo r)"
    and "is_meaningful r = (\<not> is_logo r \<and> is_large_file r \<and> has_image_shape r)"
    and "map_of (attributes img) ''src'' = Some (src r)"
    and "src r \<noteq> []"
  using assms unfolding is_meaningful_image_def
  by (auto simp: Let_def ScrapedImage_def get_attribute_def truthy_def
      split: sum.splits if_splits prod.splits option.splits)

lemma py_int_Nil: "py_int [] = None"
  by (simp add: py_int_def py_strip_def)

lemma check_image_size_shape:
  assumes "check_image_size img = Inr (w, h, shape)"
  shows "shape \<longleftrightarrow>
     (\<exists>ws hs wi hi. map_of (attributes img) ''width'' = Some ws \<and>
        map_of (attributes img) ''height'' = Some hs \<and>
        py_int ws = Some wi \<and> py_int hs = Some hi \<and> wi > 100 \<and> hi > 100)"
    and "\<not> shape \<Longrightarrow> w = None \<and> h = None"
  using assms unfolding check_image_size_def
  by (auto simp: get_attribute_def truthy_def py_int_Nil
      split: sum.splits if_splits option.splits)

text \<open>Setting \<^verbatim>\<open>screenshot_path\<close>, the one later write to a record, keeps the flags.\<close>

lemma images_loop_flags:
  assumes "images_loop pg es acc macc = Inr (a, m)"
    and "\<forall>r \<in> set acc \<union> set macc.
           is_meaningful r = (\<not> is_logo r \<and> is_large_file r \<and> has_image_shape r)"
  shows "\<forall>r \<in> set a \<union> set m.
           is_meaningful r = (\<not> is_logo r \<and> is_large_file r \<and> has_image_shape r)"
  using assms
proof (induction es arbitrary: acc macc)
  case Nil
  then show ?case by simp
next
  case (Cons img rest)
  show ?case
  proof (cases "is_meaningful_image img pg")
    case (Inl e)
    with Cons.prems show ?thesis by simp
  next
    case (Inr res)
    show ?thesis
    proof (cases res)
      case None
      with Inr Cons show ?thesis by simp
    next
      case (Some d)
      have d: "is_meaningful d = (\<not> is_logo d \<and> is_large_file d \<and> has_image_shape d)"
        using Inr Some classified_fields(4) by blast
      show ?thesis
      proof (cases "is_meaningful d")
        case False
        with Cons.prems Inr Some
        have run: "images_loop pg rest (acc @ [d]) macc = Inr (a, m)"
          by simp
        show ?thesis
          by (rule Cons.IH [OF run]) (use Cons.prems(2) d in auto)
      next
        case True
        define d' where "d' = (if truthy (save_image_screenshot pg d (length macc))
            then d\<lparr>screenshot_path := save_image_screenshot pg d (length macc)\<rparr>
            else d)"
        have d': "is_meaningful d' = (\<not> is_logo d' \<and> is_large_file d' \<and> has_image_shape d')"
          using d by (simp add: d'_def)
        from Cons.prems Inr Some True
        have run: "images_loop pg rest (acc @ [d']) (macc @ [d']) = Inr (a, m)"
          by (simp add: Let_def d'_def)
        show ?thesis
          by (rule Cons.IH [OF run]) (use Cons.prems(2) d' in auto)
      qed
    qed
  qed
qed

text \<open>
  C1. For every record that the classifier returns, \<^verbatim>\<open>is_meaningful\<close> is true exactly
  when \<^verbatim>\<open>is_logo\<close> is false and \<^verbatim>\<open>is_large_file\<close> and \<^verbatim>\<open>has_image_shape\<close> are
  true, and the same holds of every record in the two lists that \<^verbatim>\<open>extract_images\<close>
  returns for a page: nothing sets the flag afterwards.
\<close>

theorem is_meaningful_iff_flags:
  "(is_meaningful_image img pg = Inr (Some r) \<longrightarrow>
      (is_meaningful r \<longleftrightarrow> \<not> is_logo r \<and> is_large_file r \<and> has_image_shape r)) \<and>
   (extract_images cfg context link = Triple ms ims svgs \<longrightarrow>
      (\<forall>d \<in> set ims \<union> set ms.
         is_meaningful d \<longleftrightarrow> \<not> is_logo d \<and> is_large_file d \<and> has_image_shape d))"
proof (intro conjI impI)
  assume "is_meaningful_image img pg = Inr (Some r)"
  then show "is_meaningful r \<longleftrightarrow> \<not> is_logo r \<and> is_large_file r \<and> has_image_shape r"
    by (rule classified_fields(4))
next
  assume ex: "extract_images cfg context link = Triple ms ims svgs"
  then have "images_loop (context link) (imgs (context link)) [] [] =
      Inr (ims, ms)"
    by (auto simp: extract_images_def Let_def split: if_splits sum.splits prod.splits)
  from images_loop_flags [OF this]
  show "\<forall>d \<in> set ims \<union> set ms.
         is_meaningful d \<longleftrightarrow> \<not> is_logo d \<and> is_large_file d \<and> has_image_shape d"
    by simp
qed

text \<open>The example inputs are evaluated by unfolding the definitions.\<close>

lemmas classify_defs = is_meaningful_image_def get_attribute_def truthy_def ScrapedImage_def
  is_header_footer_logo_def position_check_def check_file_image_size_def
  fetch_content_length_def check_image_size_def js_gt_def Let_def

lemmas parse_defs = py_int_def py_strip_def py_isspace_def is_digit_def digit_val_def
  decimal_value_def parseInt_def js_isspace_def radix_digit_val_def

lemmas example_defs = example_config_def example_element_def photo_def edge_photo_def
  banner_def no_src_def vector_img_def vector_object_def example_head_def example_page_def

lemma photo_classified: "is_meaningful_image photo example_page = Inr (Some photo_record)"
  by (simp add: classify_defs parse_defs example_defs photo_record_def)

lemma edge_classified: "is_meaningful_image edge_photo example_page = Inr (Some edge_record)"
  by (simp add: classify_defs parse_defs example_defs edge_record_def)

lemma banner_classified: "is_meaningful_image banner example_page = Inr (Some banner_record)"
  by (simp add: classify_defs parse_defs example_defs banner_record_def)

theorem is_meaningful_iff_flags_witness:
  "is_meaningful_image photo example_page = Inr (Some photo_record) \<and>
   is_meaningful photo_record \<and> \<not> is_logo photo_record \<and> is_large_file photo_record \<and> has_image_shape photo_record"
  using is_meaningful_iff_flags [of photo example_page photo_record] photo_classified
  by (simp add: photo_record_def)

text \<open>
  C5. For every classified image, \<^verbatim>\<open>has_image_shape\<close> is true exactly when the
  \<^verbatim>\<open>width\<close> and \<^verbatim>\<open>height\<close> attributes are both there, both are accepted by
  \<^verbatim>\<open>int\<close>, and both numbers are greater than 100; whenever it is false, the
  \<^verbatim>\<open>width\<close> and \<^verbatim>\<open>height\<close> of the record are both \<^verbatim>\<open>None\<close>.
\<close>

theorem has_image_shape_iff:
  assumes "is_meaningful_image img pg = Inr (Some r)"
  shows "(has_image_shape r \<longleftrightarrow>
           (\<exists>ws hs wi hi. map_of (attributes img) ''width'' = Some ws \<and>
              map_of (attributes img) ''height'' = Some hs \<and>
              py_int ws = Some wi \<and> py_int hs = Some hi \<and> wi > 100 \<and> hi > 100)) \<and>
         (\<not> has_image_shape r \<longrightarrow> width r = None \<and> height r = None)"
  using check_image_size_shape [OF classified_fields(1) [OF assms]] by blast

theorem has_image_shape_iff_witness:
  "is_meaningful_image photo example_page = Inr (Some photo_record) \<and>
   has_image_shape photo_record \<and>
   is_meaningful_image edge_photo example_page = Inr (Some edge_record) \<and>
   \<not> has_image_shape edge_record \<and> width edge_record = None \<and> height edge_record = None"
  using has_image_shape_iff [OF photo_classified] has_image_shape_iff [OF edge_classified]
    photo_classified edge_classified
  by (simp add: photo_record_def edge_record_def)

text \<open>
  C6. The second component of \<^verbatim>\<open>check_file_image_size\<close>, and so the
  \<^verbatim>\<open>is_large_file\<close> of every classified record, is true exactly when the probed size
  is a number greater than 10240; at 10240 it is false.
\<close>

theorem is_large_file_iff:
  "(snd (check_file_image_size pg s) \<longleftrightarrow>
      (\<exists>n. fst (check_file_image_size pg s) = Some (JSNum n) \<and> n > 10240)) \<and>
   (is_meaningful_image img pg = Inr (Some r) \<longrightarrow>
      (is_large_file r \<longleftrightarrow> (\<exists>n. file_size r = Some (JSNum n) \<and> n > 10240)))"
proof -
  have size: "snd (check_file_image_size p u) \<longleftrightarrow>
      (\<exists>n. fst (check_file_image_size p u) = Some (JSNum n) \<and> n > 10240)" for p u
    by (auto simp: check_file_image_size_def js_gt_def split: sum.splits js_number.splits)
  show ?thesis
  proof (intro conjI impI)
    show "snd (check_file_image_size pg s) \<longleftrightarrow>
      (\<exists>n. fst (check_file_image_size pg s) = Some (JSNum n) \<and> n > 10240)"
      by (rule size)
  next
    assume "is_meaningful_image img pg = Inr (Some r)"
    then have "check_file_image_size pg (src r) = (file_size r, is_large_file r)"
      by (rule classified_fields(2))
    with size [of pg "src r"]
    show "is_large_file r \<longleftrightarrow> (\<exists>n. file_size r = Some (JSNum n) \<and> n > 10240)"
      by simp
  qed
qed

theorem is_large_file_iff_witness:
  "is_meaningful_image edge_photo example_page = Inr (Some edge_record) \<and>
   file_size edge_record = Some (JSNum 10240) \<and> \<not> is_large_file edge_record \<and>
   is_meaningful_image photo example_page = Inr (Some photo_record) \<and>
   file_size photo_record = Some (JSNum 20000) \<and> is_large_file photo_record"
  using is_large_file_iff [of example_page "''edge.jpg''" edge_photo edge_record]
    is_large_file_iff [of example_page "''photo.jpg''" photo photo_record]
    photo_classified edge_classified
  by (simp add: photo_record_def edge_record_def)

text \<open>
  C7. For an image element whose \<^verbatim>\<open>src\<close> attribute is missing or empty the classifier
  returns \<^verbatim>\<open>None\<close> when the attribute can be read, raises when the handle is dead,
  and in no case returns a record.
\<close>

theorem no_src_no_record:
  assumes "map_of (attributes img) ''src'' = None \<or> map_of (attributes img) ''src'' = Some ''''"
  shows "(get_attribute_ok img \<longrightarrow> is_meaningful_image img pg = Inr None) \<and>
         (\<not> get_attribute_ok img \<longrightarrow> is_meaningful_image img pg = Inl PlaywrightError) \<and>
         (\<forall>r. is_meaningful_image img pg \<noteq> Inr (Some r))"
  using assms by (auto simp: is_meaningful_image_def get_attribute_def truthy_def)

theorem no_src_no_record_witness:
  "map_of (attributes no_src) ''src'' = None \<and> get_attribute_ok no_src \<and>
   is_meaningful_image no_src example_page = Inr None"
proof -
  have absent: "map_of (attributes no_src) ''src'' = None"
    by (simp add: no_src_def example_element_def)
  have ok: "get_attribute_ok no_src"
    by (simp add: no_src_def example_element_def)
  from no_src_no_record [of no_src example_page] absent ok show ?thesis
    by simp
qed

text \<open>
  C10. For a classified raster image whose position script was evaluated, the record
  holds the two zone flags, \<^verbatim>\<open>is_logo\<close> is their disjunction, and the width, the
  height and the left edge of the element have no part in the three values.
\<close>

theorem raster_logo_is_header_or_footer:
  assumes "is_meaningful_image img pg = Inr (Some r)" and "evaluate_ok img"
  shows "is_header r = Some (rect_top img < viewportHeight pg * 0.1) \<and>
         is_footer r = Some (rect_bottom img > documentHeight pg - viewportHeight pg * 0.1) \<and>
         (is_logo r \<longleftrightarrow> is_header r = Some True \<or> is_footer r = Some True) \<and>
         (\<forall>l w h. is_header_footer_logo pg (img\<lparr>rect_left := l, rect_width := w, rect_height := h\<rparr>)
              = (is_header r, is_footer r, is_logo r))"
proof -
  define t where "t = (rect_top img < viewportHeight pg * 0.1)"
  define b where "b = (rect_bottom img > documentHeight pg - viewportHeight pg * 0.1)"
  have probe: "is_header_footer_logo pg e = (Some t, Some b, t \<or> b)"
    if "evaluate_ok e" "rect_top e = rect_top img" "rect_bottom e = rect_bottom img" for e
    using that by (simp add: is_header_footer_logo_def position_check_def Let_def t_def b_def)
  have "is_header_footer_logo pg img = (is_header r, is_footer r, is_logo r)"
    using assms(1) by (rule classified_fields(3))
  with probe [of img] assms(2)
  have r: "is_header r = Some t" "is_footer r = Some b" "is_logo r = (t \<or> b)"
    by simp_all
  have "is_header_footer_logo pg (img\<lparr>rect_left := l, rect_width := w, rect_height := h\<rparr>)
      = (is_header r, is_footer r, is_logo r)" for l w h
    using probe [of "img\<lparr>rect_left := l, rect_width := w, rect_height := h\<rparr>"] assms(2) r
    by simp
  with r show ?thesis
    unfolding t_def b_def by auto
qed

theorem raster_logo_is_header_or_footer_witness:
  "is_meaningful_image banner example_page = Inr (Some banner_record) \<and>
   evaluate_ok banner \<and> is_header banner_record = Some True \<and>
   is_footer banner_record = Some False \<and> is_logo banner_record"
proof -
  have ok: "evaluate_ok banner"
    by (simp add: banner_def example_element_def)
  from raster_logo_is_header_or_footer [OF banner_classified ok] banner_classified ok
  show ?thesis
    by (simp add: banner_record_def)
qed

section \<open>The fields of a vector graphic\<close>

text \<open>What each loop body puts into the record it builds.\<close>

lemma inline_svg_fields:
  assumes "inline_svg cfg pg i e = Inr r"
  shows "is_inline r" and "content r = Some (outerHTML e)" and "svg_src r = None"
  using assms unfolding inline_svg_def take_screenshot_def
  by (auto simp: Let_def split: sum.splits if_splits prod.splits)

lemma svg_image_fields:
  assumes "svg_image cfg pg i e = Inr (Some r)"
  shows "\<not> is_inline r" and "content r = None" and "\<exists>s. svg_src r = Some s \<and> s \<noteq> []"
  using assms unfolding svg_image_def take_screenshot_def
  by (auto simp: Let_def truthy_def split: sum.splits if_splits prod.splits option.splits)

lemma svg_object_fields:
  assumes "svg_object pg e = Inr (Some r)"
  shows "\<not> is_inline r" and "content r = None" and "\<exists>s. svg_src r = Some s \<and> s \<noteq> []"
  using assms unfolding svg_object_def
  by (auto simp: Let_def truthy_def split: sum.splits if_splits prod.splits option.splits)

text \<open>A property of every record a loop body builds holds of everything a loop appends.\<close>

lemma inline_loop_all:
  assumes "\<forall>r \<in> set acc. P r"
    and "\<And>i e r. inline_svg cfg pg i e = Inr r \<Longrightarrow> P r"
  shows "\<forall>r \<in> set (inline_loop cfg pg i es acc). P r"
  using assms(1)
proof (induction es arbitrary: i acc)
  case Nil
  then show ?case by simp
next
  case (Cons e es)
  have "\<forall>r \<in> set (case inline_svg cfg pg i e of Inr svg_obj \<Rightarrow> acc @ [svg_obj] | Inl x \<Rightarrow> acc). P r"
    using Cons.prems assms(2) by (auto split: sum.splits)
  from Cons.IH [OF this] show ?case by simp
qed

lemma image_loop_all:
  assumes "\<forall>r \<in> set acc. P r"
    and "\<And>i e r. svg_image cfg pg i e = Inr (Some r) \<Longrightarrow> P r"
  shows "\<forall>r \<in> set (image_loop cfg pg i es acc). P r"
  using assms(1)
proof (induction es arbitrary: i acc)
  case Nil
  then show ?case by simp
next
  case (Cons e es)
  have "\<forall>r \<in> set (case svg_image cfg pg i e of Inr (Some svg_obj) \<Rightarrow> acc @ [svg_obj] | _ \<Rightarrow> acc). P r"
    using Cons.prems assms(2) by (auto split: sum.splits option.splits)
  from Cons.IH [OF this] show ?case by simp
qed

lemma object_loop_all:
  assumes "\<forall>r \<in> set acc. P r"
    and "\<And>e r. svg_object pg e = Inr (Some r) \<Longrightarrow> P r"
  shows "\<forall>r \<in> set (object_loop pg es acc). P r"
  using assms(1)
proof (induction es arbitrary: acc)
  case Nil
  then show ?case by simp
next
  case (Cons e es)
  have "\<forall>r \<in> set (case svg_object pg e of Inr (Some svg_obj) \<Rightarrow> acc @ [svg_obj] | _ \<Rightarrow> acc). P r"
    using Cons.prems assms(2) by (auto split: sum.splits option.splits)
  from Cons.IH [OF this] show ?case by simp
qed

text \<open>
  C9. Every record that \<^verbatim>\<open>extract_svgs\<close> returns has exactly one of \<^verbatim>\<open>content\<close>
  and \<^verbatim>\<open>src\<close>: an inline record has a \<^verbatim>\<open>content\<close> and no \<^verbatim>\<open>src\<close>, every other
  record has a non-empty \<^verbatim>\<open>src\<close> and no \<^verbatim>\<open>content\<close>.
\<close>

theorem svg_content_xor_src:
  "\<forall>svg \<in> set (extract_svgs cfg pg).
     (is_inline svg \<longrightarrow> content svg \<noteq> None \<and> svg_src svg = None) \<and>
     (\<not> is_inline svg \<longrightarrow> svg_src svg \<noteq> None \<and> svg_src svg \<noteq> Some [] \<and> content svg = None)"
proof -
  let ?P = "\<lambda>svg. (is_inline svg \<longrightarrow> content svg \<noteq> None \<and> svg_src svg = None) \<and>
     (\<not> is_inline svg \<longrightarrow> svg_src svg \<noteq> None \<and> svg_src svg \<noteq> Some [] \<and> content svg = None)"
  have "\<forall>r \<in> set (inline_loop cfg pg 0 (inline_svgs pg) []). ?P r"
    by (rule inline_loop_all) (use inline_svg_fields in auto)
  then have "\<forall>r \<in> set (image_loop cfg pg 0 (svg_images pg)
      (inline_loop cfg pg 0 (inline_svgs pg) [])). ?P r"
    by (rule image_loop_all) (use svg_image_fields in fastforce)
  then have "\<forall>r \<in> set (object_loop pg (svg_objects pg) (image_loop cfg pg 0 (svg_images pg)
      (inline_loop cfg pg 0 (inline_svgs pg) []))). ?P r"
    by (rule object_loop_all) (use svg_object_fields in fastforce)
  then show ?thesis
    by (simp add: extract_svgs_def Let_def)
qed

lemmas svg_defs = extract_svgs_def inline_svg_def svg_image_def svg_object_def
  svg_dimension_def isdigit_def position_data_def take_screenshot_def path_join_def

lemma example_svgs:
  "extract_svgs example_config example_page =
     [inline_record, vector_img_record, vector_object_record]"
  by (simp add: svg_defs classify_defs parse_defs example_defs str.simps
      inline_record_def vector_img_record_def vector_object_record_def)

theorem svg_content_xor_src_witness:
  "extract_svgs example_config example_page =
     [inline_record, vector_img_record, vector_object_record] \<and>
   is_inline inline_record \<and> content inline_record \<noteq> None \<and> svg_src inline_record = None \<and>
   \<not> is_inline vector_img_record \<and> svg_src vector_img_record \<noteq> None \<and>
   content vector_img_record = None \<and>
   \<not> is_inline vector_object_record \<and> svg_src vector_object_record \<noteq> None \<and>
   content vector_object_record = None"
  using svg_content_xor_src [of example_config example_page] example_svgs
  by (simp add: inline_record_def vector_img_record_def vector_object_record_def)

section \<open>Reuse of the saved session\<close>

lemma fresh_login_events:
  "NewContextFromState \<notin> set (fst (fresh_login env))"
  "take 2 (fst (fresh_login env)) = [NewContextFresh, GotoAuthenticationURL]"
  "snd (fresh_login env) \<noteq> Inr SeededContext"
  by (simp_all add: fresh_login_def)

text \<open>A saved state that is young enough and still logged in is reused with no login.\<close>

lemma young_state_reused:
  assumes "auth_state_mtime env = Some mtime" and "now env - mtime < of_int (AUTH_MAX_AGE cfg)"
    and "goto_url_ok env" and "is_logged_in env"
  shows "authenticate cfg env =
     ([NewContextFromState, GotoURL, EvaluateLoggedIn], Inr SeededContext)"
  using assms by (simp add: authenticate_def auth_state_valid_def)

text \<open>
  C3. When the saved state exists and its age, the clock minus its modification time, is
  at least \<^verbatim>\<open>AUTH_MAX_AGE\<close>, \<^verbatim>\<open>authenticate\<close> is the login: no context is made
  from the state, the first two steps are a fresh context and the navigation to the
  authentication URL, the result is never the seeded context, and when the login steps
  succeed the state is saved again and the fresh context is returned.
\<close>

theorem stale_state_never_seeded:
  assumes "auth_state_mtime env = Some mtime"
    and "now env - mtime \<ge> of_int (AUTH_MAX_AGE cfg)"
  shows "authenticate cfg env = fresh_login env \<and>
         NewContextFromState \<notin> set (fst (authenticate cfg env)) \<and>
         take 2 (fst (authenticate cfg env)) = [NewContextFresh, GotoAuthenticationURL] \<and>
         snd (authenticate cfg env) \<noteq> Inr SeededContext \<and>
         (goto_authentication_url_ok env \<and> submit_ok env \<and> storage_state_ok env \<longrightarrow>
            SaveState \<in> set (fst (authenticate cfg env)) \<and>
            snd (authenticate cfg env) = Inr FreshContext)"
proof -
  have "\<not> auth_state_valid cfg env"
    using assms by (simp add: auth_state_valid_def)
  then have eq: "authenticate cfg env = fresh_login env"
    by (simp add: authenticate_def)
  moreover have "goto_authentication_url_ok env \<and> submit_ok env \<and> storage_state_ok env \<longrightarrow>
      SaveState \<in> set (fst (fresh_login env)) \<and> snd (fresh_login env) = Inr FreshContext"
    by (simp add: fresh_login_def)
  ultimately show ?thesis
    using fresh_login_events [of env] by simp
qed

theorem stale_state_never_seeded_witness:
  "auth_state_mtime day_old_session = Some 1700000000 \<and>
   now day_old_session - 1700000000 \<ge> of_int (AUTH_MAX_AGE example_config) \<and>
   authenticate example_config day_old_session =
     ([NewContextFresh, GotoAuthenticationURL, SubmitCredentials, SaveState], Inr FreshContext)"
proof -
  have m: "auth_state_mtime day_old_session = Some 1700000000"
    by (simp add: day_old_session_def)
  have age: "now day_old_session - 1700000000 \<ge> of_int (AUTH_MAX_AGE example_config)"
    by (simp add: day_old_session_def AUTH_MAX_AGE_def example_config_def)
  have "fresh_login day_old_session =
      ([NewContextFresh, GotoAuthenticationURL, SubmitCredentials, SaveState], Inr FreshContext)"
    by (simp add: fresh_login_def day_old_session_def)
  with stale_state_never_seeded [OF m age] m age show ?thesis
    by simp
qed

section \<open>The links a crawl visits\<close>

lemma extract_images_failed:
  "\<not> goto_ok (context link) \<or> \<not> load_ok (context link) \<or>
   (\<exists>e. images_loop (context link) (imgs (context link)) [] [] = Inl e)
   \<Longrightarrow> extract_images cfg context link = EmptyList"
  by (auto simp: extract_images_def Let_def)

lemma crawl_loop_abort:
  assumes "i < 10" and "extract_images cfg context link = EmptyList"
  shows "crawl_loop cfg context i (link # links) visited agg = (visited @ [link], Inl ValueError)"
  using assms by simp

text \<open>
  The loop never visits an eleventh link, and what it visits is a prefix of the links in
  their order.
\<close>

lemma crawl_loop_visited_prefix:
  "\<exists>k. k \<le> min (length links) (10 - i) \<and>
       fst (crawl_loop cfg context i links visited agg) = visited @ take k links"
proof (induction links arbitrary: i visited agg)
  case Nil
  then show ?case by simp
next
  case (Cons link links)
  show ?case
  proof (cases "i < 10")
    case False
    then show ?thesis by simp
  next
    case True
    show ?thesis
    proof (cases "extract_images cfg context link")
      case EmptyList
      have "1 \<le> min (length (link # links)) (10 - i)"
        using True by simp
      moreover have "fst (crawl_loop cfg context i (link # links) visited agg) =
          visited @ take 1 (link # links)"
        using True EmptyList by simp
      ultimately show ?thesis by blast
    next
      case (Triple m ims svgs)
      obtain k where k: "k \<le> min (length links) (10 - Suc i)"
        and run: "fst (crawl_loop cfg context (Suc i) links (visited @ [link])
          \<lparr>all_meaningful_images = all_meaningful_images agg @ m,
           all_images = all_images agg @ ims, all_svgs = all_svgs agg @ svgs\<rparr>) =
          (visited @ [link]) @ take k links"
        using Cons.IH by blast
      have "length (link # links) = Suc (length links)"
        by simp
      then have "Suc k \<le> min (length (link # links)) (10 - i)"
        using k True by arith
      moreover have "fst (crawl_loop cfg context i (link # links) visited agg) =
          visited @ take (Suc k) (link # links)"
        using True Triple run by simp
      ultimately show ?thesis by blast
    qed
  qed
qed

text \<open>When no page among the first ten fails, exactly the first ten links are visited
  and the run ends with its three lists.\<close>

lemma crawl_loop_visited_all:
  assumes "\<forall>l \<in> set (take (10 - i) links). extract_images cfg context l \<noteq> EmptyList"
  shows "fst (crawl_loop cfg context i links visited agg) = visited @ take (10 - i) links \<and>
         (\<exists>res. snd (crawl_loop cfg context i links visited agg) = Inr res)"
  using assms
proof (induction links arbitrary: i visited agg)
  case Nil
  then show ?case by simp
next
  case (Cons link links)
  show ?case
  proof (cases "i < 10")
    case False
    then show ?thesis by simp
  next
    case True
    then obtain j where j: "10 - i = Suc j" "10 - Suc i = j"
      by (cases "10 - i") auto
    from Cons.prems j obtain m ims svgs
      where ex: "extract_images cfg context link = Triple m ims svgs"
      by (cases "extract_images cfg context link") auto
    have "\<forall>l \<in> set (take (10 - Suc i) links). extract_images cfg context l \<noteq> EmptyList"
      using Cons.prems j by simp
    from Cons.IH [OF this] show ?thesis
      using True ex j by simp
  qed
qed

lemma crawl_links_visited_all:
  assumes "\<forall>l \<in> set (take 10 links). extract_images cfg context l \<noteq> EmptyList"
  shows "fst (crawl_links cfg context links) = take (min (length links) 10) links"
  using crawl_loop_visited_all [where i = 0 and visited = "[]"] assms
  by (simp add: crawl_links_def min_def)

lemma down_page:
  "extract_images example_config example_web ''https://example.org/down'' = EmptyList"
  by (simp add: extract_images_def example_web_def)

lemma up_page:
  "u \<noteq> ''https://example.org/down''
   \<Longrightarrow> extract_images example_config example_web u \<noteq> EmptyList"
  by (simp add: extract_images_def example_web_def classify_defs parse_defs example_defs save_image_screenshot_def)

text \<open>
  C2. \<^verbatim>\<open>extract_images\<close> catches the failure of a page and returns the empty list, but
  \<^verbatim>\<open>crawl_links\<close> unpacks that result into three names: for two links of which the
  first does not load, the run ends in \<^verbatim>\<open>ValueError\<close> after the first link, and the
  second is never visited.
\<close>

theorem page_failure_aborts_crawl:
  "extract_images example_config example_web ''https://example.org/down'' = EmptyList \<and>
   crawl_links example_config example_web two_links =
     ([''https://example.org/down''], Inl ValueError)"
  using down_page by (simp add: crawl_links_def two_links_def)

text \<open>
  C8. For twelve links of which the third does not load, the links visited are the first
  three and not the first ten: the run ends in \<^verbatim>\<open>ValueError\<close> there. (With no
  failing page the first ten are visited, \<open>crawl_links_visited_all\<close>, and never more,
  \<open>crawl_loop_visited_prefix\<close>.)
\<close>

theorem page_failure_cuts_crawl_short:
  "crawl_links example_config example_web twelve_links =
     ([''https://example.org/1'', ''https://example.org/2'', ''https://example.org/down''],
      Inl ValueError) \<and>
   take (min (length twelve_links) 10) twelve_links \<noteq>
     fst (crawl_links example_config example_web twelve_links)"
proof -
  obtain m1 i1 s1 where p1: "extract_images example_config example_web ''https://example.org/1'' = Triple m1 i1 s1"
    using up_page [of "''https://example.org/1''"] by (cases "extract_images example_config example_web ''https://example.org/1''") auto
  obtain m2 i2 s2 where p2: "extract_images example_config example_web ''https://example.org/2'' = Triple m2 i2 s2"
    using up_page [of "''https://example.org/2''"] by (cases "extract_images example_config example_web ''https://example.org/2''") auto
  have "crawl_links example_config example_web twelve_links =
     ([''https://example.org/1'', ''https://example.org/2'', ''https://example.org/down''],
      Inl ValueError)"
    using p1 p2 down_page by (simp add: crawl_links_def twelve_links_def)
  then show ?thesis
    by (simp add: twelve_links_def)
qed

section \<open>Sizes the probe cannot tell\<close>

text \<open>
  A response without the header, with an empty one, or a \<^verbatim>\<open>fetch\<close> that throws give
  the size 0.
\<close>

lemma unknown_size_is_zero:
  assumes "head pg s = FetchThrows \<or> head pg s = Responded None \<or> head pg s = Responded (Some [])"
  shows "check_file_image_size pg s = (Some (JSNum 0), False)"
  using assms
  by (auto simp: check_file_image_size_def fetch_content_length_def truthy_def js_gt_def
      parseInt_def js_isspace_def radix_digit_val_def)

text \<open>
  A header of decimal digits is read as the number it writes, which is then the size.
\<close>

lemma digit_radix_eq: "is_digit c \<Longrightarrow> radix_digit_val c = digit_val c"
  by (auto simp: is_digit_def radix_digit_val_def digit_val_def Let_def)

lemma digit_radix_less: "is_digit c \<Longrightarrow> radix_digit_val c < 10"
  by (auto simp: is_digit_def radix_digit_val_def Let_def)

lemma digit_not_space: "is_digit c \<Longrightarrow> \<not> js_isspace c"
  by (auto simp: is_digit_def js_isspace_def)

lemma digit_not_sign: "is_digit c \<Longrightarrow> c \<noteq> CHR ''-'' \<and> c \<noteq> CHR ''+'' \<and> c \<noteq> CHR ''x'' \<and> c \<noteq> CHR ''X''"
  by (auto simp: is_digit_def)

lemma foldl_digits:
  "list_all is_digit ds \<Longrightarrow>
   foldl (\<lambda>a c. int 10 * a + int (radix_digit_val c)) a0 ds = foldl (\<lambda>a c. 10 * a + int (digit_val c)) a0 ds"
  by (induction ds arbitrary: a0) (auto simp: digit_radix_eq)

lemma parseInt_digits:
  assumes "ds \<noteq> []" and "list_all is_digit ds"
  shows "parseInt ds = JSNum (decimal_value ds)"
proof -
  obtain c cs where ds: "ds = c # cs"
    using assms(1) by (cases ds) auto
  have c: "is_digit c" and cs: "list_all is_digit cs"
    using assms(2) ds by auto
  have drop: "dropWhile js_isspace ds = ds"
    using c ds digit_not_space by simp
  have sign: "take 1 ds \<noteq> ''-''" "take 1 ds \<noteq> ''+''"
    using c ds digit_not_sign by auto
  have hex: "take 2 ds \<noteq> ''0x''" "take 2 ds \<noteq> ''0X''"
    using cs ds digit_not_sign by (cases cs; auto)+
  have "\<forall>x \<in> set ds. radix_digit_val x < 10"
    using assms(2) digit_radix_less by (auto simp: list_all_iff)
  then have tw: "takeWhile (\<lambda>c. radix_digit_val c < 10) ds = ds"
    by (simp add: takeWhile_eq_all_conv)
  have step: "parseInt ds =
      (if takeWhile (\<lambda>c. radix_digit_val c < 10) ds = [] then JSNaN
       else JSNum (foldl (\<lambda>a c. int 10 * a + int (radix_digit_val c)) 0
              (takeWhile (\<lambda>c. radix_digit_val c < 10) ds)))"
    using drop sign hex by (simp add: parseInt_def Let_def)
  show ?thesis
    unfolding step tw foldl_digits [OF assms(2)] decimal_value_def
    using assms(1) by simp
qed

lemma declared_length_is_size:
  assumes "head pg s = Responded (Some ds)" and "ds \<noteq> []" and "list_all is_digit ds"
  shows "check_file_image_size pg s = (Some (JSNum (decimal_value ds)), decimal_value ds > 10240)"
  using assms parseInt_digits [OF assms(2,3)]
  by (simp add: check_file_image_size_def fetch_content_length_def truthy_def js_gt_def)

lemma broken_classified: "is_meaningful_image broken_photo example_page = Inr (Some broken_record)"
  by (simp add: classify_defs parse_defs example_defs broken_photo_def broken_record_def)

text \<open>
  C4. When the evaluation of the probe script raises, \<^verbatim>\<open>check_file_image_size\<close>
  returns \<^verbatim>\<open>None\<close> as the size, and the \<^verbatim>\<open>file_size\<close> of the record is
  \<^verbatim>\<open>None\<close>, not 0.
\<close>

theorem evaluation_failure_size_is_None:
  "head example_page ''broken.jpg'' = EvaluateRaises \<and>
   check_file_image_size example_page ''broken.jpg'' = (None, False) \<and>
   is_meaningful_image broken_photo example_page = Inr (Some broken_record) \<and>
   file_size broken_record = None \<and> file_size broken_record \<noteq> Some (JSNum 0)"
  using broken_classified
  by (simp add: check_file_image_size_def fetch_content_length_def example_page_def
      example_head_def broken_record_def)

end
